theory Spec2Isabelle
  imports Complex_Main
begin

section \<open>The delivery server: in-memory stores and their request handlers\<close>

text \<open>
  This theory embeds the stateful core of \<^verbatim>\<open>src/server.ts\<close>: the module-level
  collections \<^verbatim>\<open>restaurants\<close>, \<^verbatim>\<open>tempMenus\<close>, \<^verbatim>\<open>messages\<close> and
  \<^verbatim>\<open>orders\<close>, the Express handlers that read and mutate them, and the periodic
  clean-up. Every handler is a function from the collection it touches (and the request
  fields) to the HTTP result and the collection afterwards.

  Conventions of the embedding:
  \<^item> An optional field (\<^verbatim>\<open>coverImage?: string\<close>) and a request field that may be missing
    are \<open>string option\<close>; JavaScript truthiness of such a value is \<open>truthy\<close>.
  \<^item> Timestamps are the integer milliseconds of \<^verbatim>\<open>Date.now()\<close>, of type \<open>int\<close>; the
    doubles of JavaScript subtract and compare such values exactly. A handler reads the
    clock once: the parameter \<open>now\<close> stands for every \<^verbatim>\<open>Date.now()\<close> of one synchronous
    handler run.
  \<^item> The other \<^verbatim>\<open>number\<close> fields (prices, amounts, quantities) are \<open>rat\<close>; the server
    stores and returns them and never computes with them.
  \<^item> A JavaScript \<^verbatim>\<open>Map\<close> is an association list in insertion order, with the
    operations \<open>mapGet\<close>, \<open>mapSet\<close> and \<open>mapDelete\<close>; a \<^verbatim>\<open>Map\<close> never holds a key
    twice, which is the condition \<open>distinct (map fst m)\<close>.
  \<^item> Record fields carry a prefix for their interface (\<open>o_status\<close> is \<^verbatim>\<open>status\<close> of
    \<^verbatim>\<open>Order\<close>), since the interfaces share field names.
  \<^item> The WebSocket fan-out that follows a successful mutation is output only and is left
    out; handlers are modelled on runs where sending does not throw.
\<close>

subsection \<open>Constants\<close>

definition THREE_HOURS :: int where
  "THREE_HOURS = 3 * 60 * 60 * 1000"

definition TWENTY_FOUR_HOURS :: int where
  "TWENTY_FOUR_HOURS = 24 * 60 * 60 * 1000"

subsection \<open>Type definitions\<close>

record Restaurant =
  r_id :: string
  r_name :: string
  r_coverImage :: "string option"
  r_isActive :: bool
  r_updatedAt :: int

record MenuItem =
  mi_id :: string
  mi_name :: string
  mi_description :: string
  mi_price :: rat
  mi_category :: string
  mi_imageUri :: "string option"
  mi_isAvailable :: bool
  mi_updatedAt :: int

record OrderItem =
  oi_id :: string
  oi_menuItemId :: string
  oi_name :: string
  oi_quantity :: rat
  oi_price :: rat

datatype OrderStatus =
  PENDING | ACCEPTED | PREPARING | READY | PICKED_UP | ON_WAY | DELIVERED | CANCELLED

record Order =
  o_id :: string
  o_userId :: string
  o_customerName :: string
  o_restaurantId :: string
  o_restaurantName :: string
  o_status :: OrderStatus
  o_totalAmount :: rat
  o_orderItems :: "OrderItem list"
  o_deliveryAddress :: string
  o_courierId :: "string option"
  o_courierName :: "string option"
  o_createdAt :: int

datatype ChatType = RESTAURANT_CHAT | COURIER_CHAT

text \<open>The string a chat type is at run time, which a query parameter is compared with.\<close>

fun chatTypeName :: "ChatType \<Rightarrow> string" where
  "chatTypeName RESTAURANT_CHAT = ''RESTAURANT_CHAT''"
| "chatTypeName COURIER_CHAT = ''COURIER_CHAT''"

record Message =
  m_id :: string
  m_orderId :: string
  m_content :: string
  m_senderId :: string
  m_isFromUser :: bool
  m_timestamp :: int
  m_chatType :: ChatType
  m_delivered :: bool

text \<open>The value of \<^verbatim>\<open>tempMenus\<close>: \<^verbatim>\<open>{ items: MenuItem[]; timestamp: number }\<close>.\<close>

record MenuData =
  md_items :: "MenuItem list"
  md_timestamp :: int

text \<open>
  The failures a handler answers with: \<^verbatim>\<open>res.status(400).json({ error })\<close> (a validation
  error) and \<^verbatim>\<open>res.status(404).json({ error })\<close> (not found), each with its message.
\<close>

datatype error = Status400 string | Status404 string

subsection \<open>JavaScript helpers\<close>

text \<open>\<^verbatim>\<open>!v\<close> holds of a missing value and of the empty string.\<close>

definition truthy :: "string option \<Rightarrow> bool" where
  "truthy v = (case v of None \<Rightarrow> False | Some s \<Rightarrow> s \<noteq> [])"

text \<open>\<^verbatim>\<open>Array.prototype.findIndex\<close>; \<open>None\<close> is the result \<^verbatim>\<open>-1\<close>.\<close>

fun findIndex :: "('a \<Rightarrow> bool) \<Rightarrow> 'a list \<Rightarrow> nat option" where
  "findIndex P [] = None"
| "findIndex P (x # xs) = (if P x then Some 0 else map_option Suc (findIndex P xs))"

type_synonym ('k, 'v) jsmap = "('k \<times> 'v) list"

definition mapGet :: "('k, 'v) jsmap \<Rightarrow> 'k \<Rightarrow> 'v option" where
  "mapGet m k = map_of m k"

text \<open>\<^verbatim>\<open>Map.prototype.set\<close> keeps the position of a key it already holds and appends a new one.\<close>

fun mapSet :: "'k \<Rightarrow> 'v \<Rightarrow> ('k, 'v) jsmap \<Rightarrow> ('k, 'v) jsmap" where
  "mapSet k v [] = [(k, v)]"
| "mapSet k v (p # ps) = (if fst p = k then (k, v) # ps else p # mapSet k v ps)"

definition mapDelete :: "'k \<Rightarrow> ('k, 'v) jsmap \<Rightarrow> ('k, 'v) jsmap" where
  "mapDelete k m = filter (\<lambda>p. fst p \<noteq> k) m"

text \<open>\<^verbatim>\<open>m.get(k) || []\<close> for a map of arrays (an array is always truthy).\<close>

definition getOrEmpty :: "('k, 'v list) jsmap \<Rightarrow> 'k \<Rightarrow> 'v list" where
  "getOrEmpty m k = (case mapGet m k of None \<Rightarrow> [] | Some xs \<Rightarrow> xs)"

subsection \<open>Menu endpoints\<close>

text \<open>
  \<^verbatim>\<open>POST /menus/:restaurantId\<close>. The body's \<^verbatim>\<open>items\<close> is \<open>None\<close> when it is not an
  array. Every item is stored with \<^verbatim>\<open>updatedAt: Date.now()\<close>.
\<close>

definition postMenu ::
  "(string, MenuData) jsmap \<Rightarrow> string \<Rightarrow> MenuItem list option \<Rightarrow> int
    \<Rightarrow> (error + unit) \<times> (string, MenuData) jsmap" where
  "postMenu tempMenus restaurantId items now =
     (case items of
        None \<Rightarrow> (Inl (Status400 ''Invalid menu items format''), tempMenus)
      | Some its \<Rightarrow>
          (let itemsWithTimestamp = map (\<lambda>item. item\<lparr>mi_updatedAt := now\<rparr>) its
           in (Inr (),
               mapSet restaurantId
                 \<lparr>md_items = itemsWithTimestamp, md_timestamp = now\<rparr> tempMenus)))"

text \<open>\<^verbatim>\<open>GET /menus/:restaurantId\<close>: a missing or expired entry is deleted and answered 404.\<close>

definition getMenu ::
  "(string, MenuData) jsmap \<Rightarrow> string \<Rightarrow> int
    \<Rightarrow> (error + MenuItem list) \<times> (string, MenuData) jsmap" where
  "getMenu tempMenus restaurantId now =
     (case mapGet tempMenus restaurantId of
        None \<Rightarrow>
          (Inl (Status404 ''Menu not found or expired''), mapDelete restaurantId tempMenus)
      | Some menuData \<Rightarrow>
          if now - md_timestamp menuData > TWENTY_FOUR_HOURS
          then (Inl (Status404 ''Menu not found or expired''), mapDelete restaurantId tempMenus)
          else (Inr (md_items menuData), tempMenus))"

subsection \<open>Restaurant endpoint\<close>

text \<open>
  \<^verbatim>\<open>POST /restaurants\<close> with \<^verbatim>\<open>upload.single('coverImage')\<close>. \<open>file\<close> is the stored
  file name of the uploaded image when the request carries one; \<open>body\<close> holds the
  form fields, which are strings. A request with a file and no field only answers the
  image's URL. Deleting the replaced image file is an effect on the disk only.
\<close>

datatype RestaurantReply = ImageUrl string | Saved Restaurant

definition postRestaurant ::
  "Restaurant list \<Rightarrow> string option \<Rightarrow> (string \<times> string) list \<Rightarrow> int
    \<Rightarrow> (error + RestaurantReply) \<times> Restaurant list" where
  "postRestaurant restaurants file body now =
     (if file \<noteq> None \<and> length body = 0
      then (Inr (ImageUrl (''/uploads/'' @ the file)), restaurants)
      else
        (let id = map_of body ''id''; name = map_of body ''name'';
             isActive = map_of body ''isActive''
         in if \<not> truthy id \<or> \<not> truthy name
            then (Inl (Status400 ''Missing required fields''), restaurants)
            else
              (let existingIndex = findIndex (\<lambda>r. r_id r = the id) restaurants;
                   existingCoverImage =
                     (case existingIndex of
                        Some i \<Rightarrow> r_coverImage (restaurants ! i)
                      | None \<Rightarrow> None);
                   restaurant =
                     \<lparr>r_id = the id, r_name = the name,
                      r_coverImage =
                        (case file of
                           Some filename \<Rightarrow> Some (''/uploads/'' @ filename)
                         | None \<Rightarrow> existingCoverImage),
                      r_isActive = (isActive = Some ''true''),
                      r_updatedAt = now\<rparr>
               in case existingIndex of
                    Some i \<Rightarrow> (Inr (Saved restaurant), restaurants[i := restaurant])
                  | None \<Rightarrow> (Inr (Saved restaurant), restaurants @ [restaurant]))))"

subsection \<open>Order endpoints\<close>

text \<open>
  \<^verbatim>\<open>POST /orders/:userId\<close>. \<open>newOrders\<close> is \<open>None\<close> when the body's \<^verbatim>\<open>orders\<close> is
  not an array. The batch is appended to the owner's bucket as it came.
\<close>

definition postOrders ::
  "(string, Order list) jsmap \<Rightarrow> string \<Rightarrow> Order list option
    \<Rightarrow> (error + unit) \<times> (string, Order list) jsmap" where
  "postOrders orders userId newOrders =
     (case newOrders of
        None \<Rightarrow> (Inl (Status400 ''Invalid orders format''), orders)
      | Some batch \<Rightarrow>
          (let existingOrders = getOrEmpty orders userId;
               updatedOrders = existingOrders @ batch
           in (Inr (), mapSet userId updatedOrders orders)))"

text \<open>
  \<^verbatim>\<open>PUT /orders/:orderId/status\<close>. The body of the \<^verbatim>\<open>orders.forEach\<close> callback, on one
  entry: the loop's variables are the map, \<^verbatim>\<open>found\<close> and \<^verbatim>\<open>updatedOrder\<close>.
\<close>

definition statusStep ::
  "string \<Rightarrow> OrderStatus \<Rightarrow> string option \<Rightarrow> string \<times> Order list
    \<Rightarrow> (string, Order list) jsmap \<times> bool \<times> Order option
    \<Rightarrow> (string, Order list) jsmap \<times> bool \<times> Order option" where
  "statusStep orderId status courierId entry acc =
     (case acc of (orders, found, updatedOrder) \<Rightarrow>
        (case entry of (key, userOrders) \<Rightarrow>
           (case findIndex (\<lambda>order. o_id order = orderId) userOrders of
              None \<Rightarrow> (orders, found, updatedOrder)
            | Some orderIndex \<Rightarrow>
                (let updated = (userOrders ! orderIndex)
                       \<lparr>o_status := status,
                        o_courierId :=
                          (if truthy courierId then courierId
                           else o_courierId (userOrders ! orderIndex))\<rparr>;
                     userOrders' = userOrders[orderIndex := updated]
                 in (mapSet key userOrders' orders, True, Some updated)))))"

definition putOrderStatus ::
  "(string, Order list) jsmap \<Rightarrow> string \<Rightarrow> OrderStatus \<Rightarrow> string option
    \<Rightarrow> (error + unit) \<times> (string, Order list) jsmap" where
  "putOrderStatus orders orderId status courierId =
     (case fold (statusStep orderId status courierId) orders (orders, False, None) of
        (orders', found, updatedOrder) \<Rightarrow>
          if \<not> found then (Inl (Status404 ''Order not found''), orders')
          else (Inr (), orders'))"

subsection \<open>Message endpoints\<close>

text \<open>
  \<^verbatim>\<open>POST /messages/:orderId\<close>. \<open>newId\<close> is the identifier drawn from
  \<^verbatim>\<open>Math.random()\<close>. The handler also registers a \<^verbatim>\<open>'message'\<close> listener on the
  WebSocket server object, which emits no such event; the listener never runs.
\<close>

definition postMessage ::
  "(string, Message list) jsmap \<Rightarrow> string \<Rightarrow> string option \<Rightarrow> string option \<Rightarrow> bool
    \<Rightarrow> ChatType option \<Rightarrow> string \<Rightarrow> int
    \<Rightarrow> (error + Message) \<times> (string, Message list) jsmap" where
  "postMessage messages orderId content senderId isFromUser chatType newId now =
     (if \<not> truthy content \<or> \<not> truthy senderId \<or> chatType = None
      then (Inl (Status400 ''Missing required fields''), messages)
      else
        (let message =
               \<lparr>m_id = newId, m_orderId = orderId, m_content = the content,
                m_senderId = the senderId, m_isFromUser = isFromUser,
                m_timestamp = now, m_chatType = the chatType, m_delivered = False\<rparr>;
             orderMessages = getOrEmpty messages orderId @ [message]
         in (Inr message, mapSet orderId orderMessages messages)))"

text \<open>
  \<^verbatim>\<open>GET /messages/:orderId\<close>. \<open>type\<close> is the query parameter. The list that is
  answered is also stored back when its length differs from the stored thread's.
\<close>

definition getMessages ::
  "(string, Message list) jsmap \<Rightarrow> string \<Rightarrow> string option \<Rightarrow> int
    \<Rightarrow> Message list \<times> (string, Message list) jsmap" where
  "getMessages messages orderId type now =
     (let orderMessages = getOrEmpty messages orderId;
          filteredMessages =
            (if truthy type
             then filter (\<lambda>msg. chatTypeName (m_chatType msg) = the type) orderMessages
             else orderMessages);
          recentMessages =
            filter (\<lambda>msg. now - m_timestamp msg \<le> THREE_HOURS) filteredMessages
      in if length recentMessages \<noteq> length orderMessages
         then (recentMessages, mapSet orderId recentMessages messages)
         else (recentMessages, messages))"

subsection \<open>The periodic clean-up\<close>


definition sweepOrders ::
  "int \<Rightarrow> (string, Order list) jsmap \<Rightarrow> (string, Order list) jsmap" where
  "sweepOrders now orders =
     fold (\<lambda>(userId, userOrders) m.
             (let activeOrders =
                    filter (\<lambda>order.
                              o_status order \<noteq> DELIVERED \<and> o_status order \<noteq> CANCELLED
                              \<or> now - o_createdAt order \<le> TWENTY_FOUR_HOURS)
                           userOrders
              in if length activeOrders = 0 then mapDelete userId m
                 else mapSet userId activeOrders m))
          orders orders"

subsection \<open>Sequences of requests on the message store\<close>




subsection \<open>The specification's vocabulary\<close>

text \<open>A terminal status, and the retention rule of the order sweep, in the words of the specification.\<close>

definition isTerminal :: "OrderStatus \<Rightarrow> bool" where
  "isTerminal s = (s = DELIVERED \<or> s = CANCELLED)"

definition retained :: "int \<Rightarrow> Order \<Rightarrow> bool" where
  "retained now order =
     (\<not> isTerminal (o_status order) \<or> now - o_createdAt order \<le> TWENTY_FOUR_HOURS)"

text \<open>The sum over an order's items of price times quantity.\<close>

definition itemsTotal :: "OrderItem list \<Rightarrow> rat" where
  "itemsTotal its = sum_list (map (\<lambda>i. oi_price i * oi_quantity i) its)"

subsection \<open>The earlier status handler\<close>

text \<open>
  \<^verbatim>\<open>PUT /orders/:orderId/status\<close> as the second source file has it: the body names
  the owner's bucket in \<^verbatim>\<open>userId\<close>, and the status of the first order with the id in
  that bucket is assigned in place.
\<close>

definition putOrderStatusByOwner ::
  "(string, Order list) jsmap \<Rightarrow> string \<Rightarrow> OrderStatus \<Rightarrow> string option
    \<Rightarrow> (error + unit) \<times> (string, Order list) jsmap" where
  "putOrderStatusByOwner orders orderId status userId =
     (let userOrders = (case userId of None \<Rightarrow> [] | Some u \<Rightarrow> getOrEmpty orders u)
      in case findIndex (\<lambda>order. o_id order = orderId) userOrders of
           None \<Rightarrow> (Inl (Status404 ''Order not found''), orders)
         | Some orderIndex \<Rightarrow>
             (Inr (),
              mapSet (the userId)
                (userOrders[orderIndex := (userOrders ! orderIndex)\<lparr>o_status := status\<rparr>])
                orders))"

subsection \<open>Auxiliary notions of the proofs\<close>

text \<open>
  What the status handler's loop does to one bucket, whether an entry holds the order
  looked for, and the entries a sweep that keeps the elements satisfying \<open>P\<close> leaves:
  closed forms that the folds above are proved equal to.
\<close>

definition updatedBucket :: "string \<Rightarrow> OrderStatus \<Rightarrow> string option \<Rightarrow> Order list \<Rightarrow> Order list" where
  "updatedBucket orderId status courierId userOrders =
     (case findIndex (\<lambda>order. o_id order = orderId) userOrders of
        None \<Rightarrow> userOrders
      | Some i \<Rightarrow>
          userOrders[i := (userOrders ! i)
            \<lparr>o_status := status,
             o_courierId :=
               (if truthy courierId then courierId else o_courierId (userOrders ! i))\<rparr>])"

definition holdsOrder :: "string \<Rightarrow> string \<times> Order list \<Rightarrow> bool" where
  "holdsOrder orderId entry = (findIndex (\<lambda>order. o_id order = orderId) (snd entry) \<noteq> None)"

definition sweptEntries :: "('v \<Rightarrow> bool) \<Rightarrow> ('k, 'v list) jsmap \<Rightarrow> ('k, 'v list) jsmap" where
  "sweptEntries P es = filter (\<lambda>e. snd e \<noteq> []) (map (\<lambda>e. (fst e, filter P (snd e))) es)"

subsection \<open>Concrete data\<close>

definition pizza :: MenuItem where
  "pizza = \<lparr>mi_id = ''i1'', mi_name = ''Pizza'', mi_description = ''Large'',
            mi_price = 999 / 100, mi_category = ''Main'', mi_imageUri = None,
            mi_isAvailable = True, mi_updatedAt = 0\<rparr>"

definition line1 :: OrderItem where
  "line1 = \<lparr>oi_id = ''l1'', oi_menuItemId = ''i1'', oi_name = ''Pizza'',
            oi_quantity = 1, oi_price = 1\<rparr>"

definition order1 :: Order where
  "order1 = \<lparr>o_id = ''o1'', o_userId = ''u1'', o_customerName = ''Ann'',
             o_restaurantId = ''r1'', o_restaurantName = ''Roma'', o_status = DELIVERED,
             o_totalAmount = 5, o_orderItems = [line1], o_deliveryAddress = ''Main St'',
             o_courierId = Some ''c1'', o_courierName = None, o_createdAt = 0\<rparr>"

definition order2 :: Order where
  "order2 = order1\<lparr>o_id := ''o2'', o_status := READY, o_courierId := None\<rparr>"

definition roma :: Restaurant where
  "roma = \<lparr>r_id = ''r1'', r_name = ''Roma'', r_coverImage = Some ''/uploads/a.png'',
           r_isActive = False, r_updatedAt = 0\<rparr>"


section \<open>Properties\<close>

subsection \<open>Map operations\<close>

lemma mapGet_mapSet_same: "mapGet (mapSet k v m) k = Some v"
  by (induction m) (auto simp: mapGet_def)

lemma mapGet_mapSet_other: "k' \<noteq> k \<Longrightarrow> mapGet (mapSet k v m) k' = mapGet m k'"
  by (induction m) (auto simp: mapGet_def)

lemma mapGet_mapDelete_same: "mapGet (mapDelete k m) k = None"
  by (induction m) (auto simp: mapGet_def mapDelete_def)

lemma mapGet_mapDelete_other: "k' \<noteq> k \<Longrightarrow> mapGet (mapDelete k m) k' = mapGet m k'"
  by (induction m) (auto simp: mapGet_def mapDelete_def)

lemma mapDelete_absent: "mapGet m k = None \<Longrightarrow> mapDelete k m = m"
  by (induction m) (auto simp: mapGet_def mapDelete_def split: if_splits)

lemma keys_mapSet:
  "map fst (mapSet k v m) = (if k \<in> set (map fst m) then map fst m else map fst m @ [k])"
  by (induction m) auto

lemma distinct_mapSet: "distinct (map fst m) \<Longrightarrow> distinct (map fst (mapSet k v m))"
  by (simp add: keys_mapSet)

lemma distinct_mapDelete: "distinct (map fst m) \<Longrightarrow> distinct (map fst (mapDelete k m))"
  by (simp add: mapDelete_def distinct_map_filter)

lemma findIndex_Some:
  "findIndex P xs = Some i \<Longrightarrow> i < length xs \<and> P (xs ! i) \<and> (\<forall>j<i. \<not> P (xs ! j))"
proof (induction xs arbitrary: i)
  case Nil
  then show ?case by simp
next
  case (Cons x xs)
  show ?case
  proof (cases "P x")
    case True
    with Cons.prems show ?thesis by simp
  next
    case False
    with Cons.prems obtain j where j: "findIndex P xs = Some j" "i = Suc j"
      by auto
    from Cons.IH [OF j(1)] False j(2) show ?thesis
      by (auto simp: nth_Cons split: nat.splits)
  qed
qed

lemma findIndex_None: "findIndex P xs = None \<longleftrightarrow> (\<forall>x \<in> set xs. \<not> P x)"
  by (induction xs) auto

subsection \<open>The loops in closed form\<close>

lemma mapSet_middle:
  "k \<notin> fst ` set pre \<Longrightarrow> mapSet k v' (pre @ (k, v) # es) = pre @ (k, v') # es"
  by (induction pre) auto

lemma mapDelete_middle:
  "k \<notin> fst ` set pre \<Longrightarrow> k \<notin> fst ` set es
    \<Longrightarrow> mapDelete k (pre @ (k, v) # es) = pre @ es"
  by (induction pre) (auto simp: mapDelete_def filter_id_conv)

lemma fold_statusStep:
  "distinct (map fst (pre @ es)) \<Longrightarrow>
   fold (statusStep orderId status courierId) es (pre @ es, found, upd)
     = (orders', found', upd') \<Longrightarrow>
   orders' = pre @ map (\<lambda>e. (fst e, updatedBucket orderId status courierId (snd e))) es \<and>
   found' = (found \<or> (\<exists>e \<in> set es. holdsOrder orderId e))"
proof (induction es arbitrary: pre found upd)
  case Nil
  then show ?case by simp
next
  case (Cons e es)
  obtain k v where e: "e = (k, v)" by (cases e)
  from Cons.prems(1) e have notin: "k \<notin> fst ` set pre"
    by auto
  show ?case
  proof (cases "findIndex (\<lambda>order. o_id order = orderId) v")
    case None
    with e have step: "statusStep orderId status courierId e (pre @ e # es, found, upd)
        = ((pre @ [e]) @ es, found, upd)"
      by (simp add: statusStep_def)
    from Cons.prems(1) have d: "distinct (map fst ((pre @ [e]) @ es))" by simp
    from Cons.prems(2) step
    have "fold (statusStep orderId status courierId) es ((pre @ [e]) @ es, found, upd)
        = (orders', found', upd')"
      by simp
    from Cons.IH [OF d this] None e show ?thesis
      by (simp add: updatedBucket_def holdsOrder_def)
  next
    case (Some i)
    let ?v' = "updatedBucket orderId status courierId v"
    from Some e notin
    have step: "\<exists>u. statusStep orderId status courierId e (pre @ e # es, found, upd)
        = ((pre @ [(k, ?v')]) @ es, True, u)"
      by (simp add: statusStep_def updatedBucket_def Let_def mapSet_middle)
    then obtain u where u: "statusStep orderId status courierId e (pre @ e # es, found, upd)
        = ((pre @ [(k, ?v')]) @ es, True, u)" ..
    from Cons.prems(1) e have d: "distinct (map fst ((pre @ [(k, ?v')]) @ es))" by simp
    from Cons.prems(2) u
    have "fold (statusStep orderId status courierId) es ((pre @ [(k, ?v')]) @ es, True, u)
        = (orders', found', upd')"
      by simp
    from Cons.IH [OF d this] Some e show ?thesis
      by (simp add: holdsOrder_def)
  qed
qed

lemma putOrderStatus_eq:
  assumes "distinct (map fst orders)"
  shows "putOrderStatus orders orderId status courierId =
           (if \<exists>e \<in> set orders. holdsOrder orderId e then Inr ()
            else Inl (Status404 ''Order not found''),
            map (\<lambda>e. (fst e, updatedBucket orderId status courierId (snd e))) orders)"
proof -
  obtain orders' found' upd' where
    f: "fold (statusStep orderId status courierId) orders (orders, False, None)
          = (orders', found', upd')"
    by (cases "fold (statusStep orderId status courierId) orders (orders, False, None)") auto
  from assms have "distinct (map fst ([] @ orders))" by simp
  from fold_statusStep [OF this, of orderId status courierId False None orders' found' upd'] f
  have "orders' = map (\<lambda>e. (fst e, updatedBucket orderId status courierId (snd e))) orders"
    and "found' = (\<exists>e \<in> set orders. holdsOrder orderId e)"
    by simp_all
  with f show ?thesis
    by (simp add: putOrderStatus_def)
qed

lemma mapGet_map_buckets:
  "mapGet (map (\<lambda>e. (fst e, f (snd e))) m) k = map_option f (mapGet m k)"
  by (induction m) (auto simp: mapGet_def)

lemma mapGet_in_set: "mapGet m k = Some v \<Longrightarrow> (k, v) \<in> set m"
  by (simp add: mapGet_def map_of_SomeD)

lemma updatedBucket_length: "length (updatedBucket orderId status courierId os) = length os"
  by (simp add: updatedBucket_def split: option.splits)

lemma updatedBucket_other:
  "updatedBucket orderId status courierId os ! i = os ! i" if "o_id (os ! i) \<noteq> orderId"
proof (cases "findIndex (\<lambda>order. o_id order = orderId) os")
  case None
  then show ?thesis by (simp add: updatedBucket_def)
next
  case (Some j)
  from findIndex_Some [OF Some] have "o_id (os ! j) = orderId" by simp
  with that have "j \<noteq> i" by auto
  with Some show ?thesis by (simp add: updatedBucket_def)
qed

lemma updatedBucket_courier:
  "o_courierId (updatedBucket orderId status courierId os ! i) = o_courierId (os ! i)"
  if "\<not> truthy courierId" "i < length os"
proof (cases "findIndex (\<lambda>order. o_id order = orderId) os")
  case None
  then show ?thesis by (simp add: updatedBucket_def)
next
  case (Some j)
  show ?thesis
  proof (cases "j = i")
    case True
    with Some that show ?thesis by (simp add: updatedBucket_def)
  next
    case False
    with Some show ?thesis by (simp add: updatedBucket_def)
  qed
qed

lemma updatedBucket_noop:
  "findIndex (\<lambda>order. o_id order = orderId) os = None \<Longrightarrow>
     updatedBucket orderId status courierId os = os"
  by (simp add: updatedBucket_def)

lemma fold_sweep:
  "distinct (map fst (pre @ es)) \<Longrightarrow>
   fold (\<lambda>(k, xs) m.
           (let ys = filter P xs
            in if length ys = 0 then mapDelete k m else mapSet k ys m)) es (pre @ es)
    = pre @ sweptEntries P es"
proof (induction es arbitrary: pre)
  case Nil
  then show ?case by (simp add: sweptEntries_def)
next
  case (Cons e es)
  obtain k v where e: "e = (k, v)" by (cases e)
  from Cons.prems e have notin: "k \<notin> fst ` set pre" "k \<notin> fst ` set es"
    by auto
  show ?case
  proof (cases "filter P v = []")
    case True
    from Cons.prems have d: "distinct (map fst (pre @ es))" by simp
    from True e notin Cons.IH [OF d] show ?thesis
      by (simp add: mapDelete_middle sweptEntries_def)
  next
    case False
    from Cons.prems e have d: "distinct (map fst ((pre @ [(k, filter P v)]) @ es))"
      by simp
    from False e notin Cons.IH [OF d] show ?thesis
      by (simp add: mapSet_middle sweptEntries_def)
  qed
qed

lemma mapGet_sweptEntries:
  "distinct (map fst es) \<Longrightarrow>
   mapGet (sweptEntries P es) k =
     (case mapGet es k of
        None \<Rightarrow> None
      | Some v \<Rightarrow> if filter P v = [] then None else Some (filter P v))"
proof (induction es)
  case Nil
  then show ?case by (simp add: sweptEntries_def mapGet_def)
next
  case (Cons e es)
  from Cons.prems have d: "distinct (map fst es)" and n: "fst e \<notin> fst ` set es" by auto
  from n have absent: "mapGet es (fst e) = None"
    by (simp add: mapGet_def map_of_eq_None_iff)
  show ?case
  proof (cases "k = fst e")
    case True
    with absent Cons.IH [OF d] show ?thesis
      by (auto simp: sweptEntries_def mapGet_def)
  next
    case False
    with Cons.IH [OF d] show ?thesis
      by (auto simp: sweptEntries_def mapGet_def)
  qed
qed

lemma distinct_sweptEntries:
  "distinct (map fst es) \<Longrightarrow> distinct (map fst (sweptEntries P es))"
proof -
  have "map fst (filter (\<lambda>e. snd e \<noteq> []) (map (\<lambda>e. (fst e, filter P (snd e))) es))
      = map fst (filter (\<lambda>e. filter P (snd e) \<noteq> []) es)"
    by (induction es) auto
  then show "distinct (map fst es) \<Longrightarrow> distinct (map fst (sweptEntries P es))"
    by (simp add: sweptEntries_def distinct_map_filter)
qed

lemma sweepOrders_eq:
  assumes "distinct (map fst orders)"
  shows "sweepOrders now orders = sweptEntries (retained now) orders"
proof -
  have keep: "(\<lambda>order. o_status order \<noteq> DELIVERED \<and> o_status order \<noteq> CANCELLED
                  \<or> now - o_createdAt order \<le> TWENTY_FOUR_HOURS) = retained now"
    by (auto simp: retained_def isTerminal_def fun_eq_iff)
  from assms have "distinct (map fst ([] @ orders))" by simp
  from fold_sweep [OF this, of "retained now"] show ?thesis
    by (simp add: sweepOrders_def keep)
qed



subsection \<open>The handlers keep the keys of a map distinct\<close>

lemma distinct_postMenu:
  "distinct (map fst tempMenus) \<Longrightarrow> distinct (map fst (snd (postMenu tempMenus R items now)))"
  by (simp add: postMenu_def distinct_mapSet split: option.splits)

lemma distinct_getMenu:
  "distinct (map fst tempMenus) \<Longrightarrow> distinct (map fst (snd (getMenu tempMenus R now)))"
  by (simp add: getMenu_def distinct_mapDelete split: option.splits)

lemma distinct_postOrders:
  "distinct (map fst orders) \<Longrightarrow> distinct (map fst (snd (postOrders orders userId newOrders)))"
  by (simp add: postOrders_def distinct_mapSet split: option.splits)

lemma distinct_putOrderStatus:
  "distinct (map fst orders) \<Longrightarrow>
     distinct (map fst (snd (putOrderStatus orders orderId status courierId)))"
  by (simp add: putOrderStatus_eq comp_def)

lemma distinct_sweepOrders:
  "distinct (map fst orders) \<Longrightarrow> distinct (map fst (sweepOrders now orders))"
  by (simp add: sweepOrders_eq distinct_sweptEntries)




subsection \<open>Menus\<close>

text \<open>
  Claim C6, as the code has it. For every prior content of \<open>tempMenus\<close>, every restaurant
  id \<open>R\<close> and every sequence \<open>items\<close>: setting the menu at time \<open>now\<close> succeeds and stores
  for \<open>R\<close> exactly one entry, stamped \<open>now\<close>, that holds \<open>items\<close> with the
  \<open>updatedAt\<close> of every item replaced by \<open>now\<close>; a read at a time \<open>now'\<close> no more than
  24 hours after \<open>now\<close> returns that sequence (same count, every other field as posted)
  and leaves the store as it is. Nothing of the previous entry of \<open>R\<close> survives: neither
  its items nor its timestamp occur on the right-hand sides.
\<close>

theorem menu_roundtrip_stamped:
  "now' - now \<le> TWENTY_FOUR_HOURS \<Longrightarrow>
   fst (postMenu tempMenus R (Some items) now) = Inr () \<and>
   mapGet (snd (postMenu tempMenus R (Some items) now)) R
     = Some \<lparr>md_items = map (\<lambda>item. item\<lparr>mi_updatedAt := now\<rparr>) items,
             md_timestamp = now\<rparr> \<and>
   fst (getMenu (snd (postMenu tempMenus R (Some items) now)) R now')
     = Inr (map (\<lambda>item. item\<lparr>mi_updatedAt := now\<rparr>) items) \<and>
   snd (getMenu (snd (postMenu tempMenus R (Some items) now)) R now')
     = snd (postMenu tempMenus R (Some items) now)"
  by (simp add: postMenu_def getMenu_def mapGet_mapSet_same)

theorem menu_roundtrip_stamped_witness:
  "(10::int) - 5 \<le> TWENTY_FOUR_HOURS \<and>
   fst (getMenu (snd (postMenu [(''r1'', \<lparr>md_items = [], md_timestamp = 0\<rparr>)]
                        ''r1'' (Some [pizza]) 5)) ''r1'' 10)
     = Inr [pizza\<lparr>mi_updatedAt := 5\<rparr>]"
  using menu_roundtrip_stamped
    [of 10 5 "[(''r1'', \<lparr>md_items = [], md_timestamp = 0\<rparr>)]" "''r1''" "[pizza]"]
  by (simp add: TWENTY_FOUR_HOURS_def)

text \<open>
  The claim as stated fails: an item posted with \<open>updatedAt = 0\<close> at time 5 and read
  back at once comes back with \<open>updatedAt = 5\<close>, so the sequence returned is not the
  sequence posted.
\<close>

theorem menu_roundtrip_counterexample:
  "fst (getMenu (snd (postMenu [] ''r1'' (Some [pizza]) 5)) ''r1'' 5)
     = Inr [pizza\<lparr>mi_updatedAt := 5\<rparr>] \<and>
   fst (getMenu (snd (postMenu [] ''r1'' (Some [pizza]) 5)) ''r1'' 5) \<noteq> Inr [pizza]"
  by (simp add: postMenu_def getMenu_def mapGet_def TWENTY_FOUR_HOURS_def pizza_def)

text \<open>
  Claim C7. Reading the menu of \<open>R\<close> at time \<open>now\<close> returns the stored items, and leaves
  the store alone, exactly when \<open>R\<close> has an entry whose age is at most 24 hours. With no
  entry the answer is 404 and the store is unchanged. With an entry older than 24 hours
  the answer is 404, the entry of \<open>R\<close> is gone afterwards, and every other restaurant's
  entry is as before.
\<close>

theorem getMenu_lazy_expiry:
  "(case mapGet tempMenus R of
      None \<Rightarrow>
        getMenu tempMenus R now = (Inl (Status404 ''Menu not found or expired''), tempMenus)
    | Some menuData \<Rightarrow>
        if now - md_timestamp menuData \<le> TWENTY_FOUR_HOURS
        then getMenu tempMenus R now = (Inr (md_items menuData), tempMenus)
        else fst (getMenu tempMenus R now) = Inl (Status404 ''Menu not found or expired'') \<and>
             mapGet (snd (getMenu tempMenus R now)) R = None \<and>
             (\<forall>k. k \<noteq> R \<longrightarrow> mapGet (snd (getMenu tempMenus R now)) k = mapGet tempMenus k))"
  by (auto simp: getMenu_def mapDelete_absent mapGet_mapDelete_same mapGet_mapDelete_other
           split: option.splits)

theorem getMenu_lazy_expiry_witness:
  "getMenu [(''r1'', \<lparr>md_items = [pizza], md_timestamp = 0\<rparr>)] ''r1'' 86400000
     = (Inr [pizza], [(''r1'', \<lparr>md_items = [pizza], md_timestamp = 0\<rparr>)]) \<and>
   fst (getMenu [(''r1'', \<lparr>md_items = [pizza], md_timestamp = 0\<rparr>)] ''r1'' 86400001)
     = Inl (Status404 ''Menu not found or expired'') \<and>
   mapGet (snd (getMenu [(''r1'', \<lparr>md_items = [pizza], md_timestamp = 0\<rparr>)] ''r1'' 86400001))
     ''r1'' = None \<and>
   getMenu [(''r1'', \<lparr>md_items = [pizza], md_timestamp = 0\<rparr>)] ''r2'' 1
     = (Inl (Status404 ''Menu not found or expired''),
        [(''r1'', \<lparr>md_items = [pizza], md_timestamp = 0\<rparr>)])"
  using getMenu_lazy_expiry
      [of "[(''r1'', \<lparr>md_items = [pizza], md_timestamp = 0\<rparr>)]" "''r1''" 86400000]
    getMenu_lazy_expiry
      [of "[(''r1'', \<lparr>md_items = [pizza], md_timestamp = 0\<rparr>)]" "''r1''" 86400001]
    getMenu_lazy_expiry
      [of "[(''r1'', \<lparr>md_items = [pizza], md_timestamp = 0\<rparr>)]" "''r2''" 1]
  by (simp add: mapGet_def TWENTY_FOUR_HOURS_def)

subsection \<open>Creating orders\<close>

text \<open>
  Claim C2, as the code has it. Creating orders fails, with status 400 and the store
  unchanged, when the batch is not an array. Every batch that is an array is accepted
  whatever its orders' totals are: the answer is a success, the owner's bucket becomes
  its previous content followed by the whole batch, and no other bucket changes.
\<close>

theorem postOrders_accepts_any_total:
  "postOrders orders userId None = (Inl (Status400 ''Invalid orders format''), orders) \<and>
   fst (postOrders orders userId (Some batch)) = Inr () \<and>
   mapGet (snd (postOrders orders userId (Some batch))) userId
     = Some (getOrEmpty orders userId @ batch) \<and>
   (\<forall>k. k \<noteq> userId \<longrightarrow>
      mapGet (snd (postOrders orders userId (Some batch))) k = mapGet orders k)"
  by (simp add: postOrders_def mapGet_mapSet_same mapGet_mapSet_other)

theorem postOrders_accepts_any_total_witness:
  "fst (postOrders [(''u1'', [order2])] ''u1'' (Some [order1])) = Inr () \<and>
   mapGet (snd (postOrders [(''u1'', [order2])] ''u1'' (Some [order1]))) ''u1''
     = Some [order2, order1] \<and>
   mapGet (snd (postOrders [(''u1'', [order2])] ''u1'' (Some [order1]))) ''u2'' = None"
  using postOrders_accepts_any_total [of "[(''u1'', [order2])]" "''u1''" "[order1]"]
  by (simp add: getOrEmpty_def mapGet_def)

text \<open>
  The claim as stated fails: \<open>order1\<close> declares a total of 5 over one line of price 1 and
  quantity 1, and a batch holding it is answered with a success and stored.
\<close>

theorem postOrders_validation_counterexample:
  "o_totalAmount order1 \<noteq> itemsTotal (o_orderItems order1) \<and>
   postOrders [] ''u1'' (Some [order1]) = (Inr (), [(''u1'', [order1])])"
  by (simp add: postOrders_def getOrEmpty_def mapGet_def order1_def itemsTotal_def line1_def)

subsection \<open>Upserting a restaurant\<close>

text \<open>
  Claim C10. When a restaurant with the posted id exists (the first one is at index \<open>i\<close>),
  the id and the name posted are non-empty and the request carries no image, the upsert
  succeeds and replaces that restaurant by one with the posted name, \<open>isActive\<close> true
  exactly when the posted field is the string \<^verbatim>\<open>true\<close>, \<open>updatedAt\<close> the time of the
  request, and the cover image the restaurant had before.
\<close>

theorem postRestaurant_keeps_coverImage:
  assumes "findIndex (\<lambda>r. r_id r = rid) restaurants = Some i"
    and "map_of body ''id'' = Some rid" and "rid \<noteq> []"
    and "map_of body ''name'' = Some name" and "name \<noteq> []"
  shows "postRestaurant restaurants None body now =
           (Inr (Saved \<lparr>r_id = rid, r_name = name,
                        r_coverImage = r_coverImage (restaurants ! i),
                        r_isActive = (map_of body ''isActive'' = Some ''true''),
                        r_updatedAt = now\<rparr>),
            restaurants[i := \<lparr>r_id = rid, r_name = name,
                        r_coverImage = r_coverImage (restaurants ! i),
                        r_isActive = (map_of body ''isActive'' = Some ''true''),
                        r_updatedAt = now\<rparr>])"
  using assms by (simp add: postRestaurant_def truthy_def Let_def)

theorem postRestaurant_keeps_coverImage_witness:
  "postRestaurant [roma] None [(''id'', ''r1''), (''name'', ''Roma 2''), (''isActive'', ''true'')] 7
    = (Inr (Saved \<lparr>r_id = ''r1'', r_name = ''Roma 2'', r_coverImage = Some ''/uploads/a.png'',
                    r_isActive = True, r_updatedAt = 7\<rparr>),
       [\<lparr>r_id = ''r1'', r_name = ''Roma 2'', r_coverImage = Some ''/uploads/a.png'',
         r_isActive = True, r_updatedAt = 7\<rparr>])"
  using postRestaurant_keeps_coverImage [of "''r1''" "[roma]" 0
     "[(''id'', ''r1''), (''name'', ''Roma 2''), (''isActive'', ''true'')]" "''Roma 2''" 7]
  by (simp add: roma_def)

subsection \<open>Updating an order's status\<close>

lemma updatedBucket_found:
  "findIndex (\<lambda>order. o_id order = orderId) os = Some i \<Longrightarrow>
   updatedBucket orderId status courierId os =
     os[i := (os ! i)\<lparr>o_status := status,
                      o_courierId := (if truthy courierId then courierId
                                      else o_courierId (os ! i))\<rparr>]"
  by (simp add: updatedBucket_def)

lemma updatedBucket_courierIds:
  assumes "\<not> truthy courierId"
  shows "map o_courierId (updatedBucket orderId status courierId os) = map o_courierId os"
  by (rule nth_equalityI)
    (simp_all add: updatedBucket_length updatedBucket_courier [OF assms])

text \<open>
  Claim C1, as the code has it. Let an order with id \<open>orderId\<close> be in the bucket of
  \<open>key\<close>, the first such order of the bucket at index \<open>i\<close>, with status DELIVERED or
  CANCELLED. A status update on \<open>orderId\<close> is not rejected: it succeeds and the order at
  index \<open>i\<close> afterwards has the requested status (and the requested courier id when the
  request carries one), every other field as before. The earlier handler, given the
  owner's key, does the same to the status. So the status of a terminal order stays what
  it was only when the request repeats it.
\<close>

theorem putOrderStatus_overwrites_terminal:
  assumes "distinct (map fst orders)"
    and "mapGet orders key = Some userOrders"
    and "findIndex (\<lambda>order. o_id order = orderId) userOrders = Some i"
    and "isTerminal (o_status (userOrders ! i))"
  shows "fst (putOrderStatus orders orderId status courierId) = Inr () \<and>
         mapGet (snd (putOrderStatus orders orderId status courierId)) key
           = Some (userOrders[i := (userOrders ! i)
                     \<lparr>o_status := status,
                      o_courierId := (if truthy courierId then courierId
                                      else o_courierId (userOrders ! i))\<rparr>]) \<and>
         putOrderStatusByOwner orders orderId status (Some key)
           = (Inr (),
              mapSet key (userOrders[i := (userOrders ! i)\<lparr>o_status := status\<rparr>]) orders)"
proof -
  from assms(2) have "(key, userOrders) \<in> set orders" by (rule mapGet_in_set)
  with assms(3) have "\<exists>e \<in> set orders. holdsOrder orderId e"
    by (force simp: holdsOrder_def)
  then have ok: "fst (putOrderStatus orders orderId status courierId) = Inr ()"
    by (simp add: putOrderStatus_eq [OF assms(1)])
  have bucket: "mapGet (snd (putOrderStatus orders orderId status courierId)) key
      = Some (updatedBucket orderId status courierId userOrders)"
    by (simp add: putOrderStatus_eq [OF assms(1)] mapGet_map_buckets assms(2))
  have owner: "putOrderStatusByOwner orders orderId status (Some key)
           = (Inr (),
              mapSet key (userOrders[i := (userOrders ! i)\<lparr>o_status := status\<rparr>]) orders)"
    by (simp add: putOrderStatusByOwner_def getOrEmpty_def assms(2,3))
  from ok bucket owner show ?thesis
    by (simp add: updatedBucket_found [OF assms(3)])
qed

theorem putOrderStatus_overwrites_terminal_witness:
  "fst (putOrderStatus [(''u1'', [order2, order1])] ''o1'' PENDING None) = Inr () \<and>
   mapGet (snd (putOrderStatus [(''u1'', [order2, order1])] ''o1'' PENDING None)) ''u1''
     = Some [order2, order1\<lparr>o_status := PENDING\<rparr>] \<and>
   putOrderStatusByOwner [(''u1'', [order2, order1])] ''o1'' PENDING (Some ''u1'')
     = (Inr (), [(''u1'', [order2, order1\<lparr>o_status := PENDING\<rparr>])])"
proof -
  have d: "distinct (map fst [(''u1'', [order2, order1])])" by simp
  have g: "mapGet [(''u1'', [order2, order1])] ''u1'' = Some [order2, order1]"
    by (simp add: mapGet_def)
  have f: "findIndex (\<lambda>order. o_id order = ''o1'') [order2, order1] = Some 1"
    by (simp add: order1_def order2_def)
  have t: "isTerminal (o_status ([order2, order1] ! 1))"
    by (simp add: isTerminal_def order1_def)
  from putOrderStatus_overwrites_terminal [OF d g f t, of PENDING None]
  show ?thesis by (simp add: truthy_def order1_def)
qed

text \<open>
  The claim as stated fails: \<open>order1\<close> is DELIVERED, and a request to set it to PENDING
  is answered with a success and leaves it PENDING, in either handler.
\<close>

theorem terminal_status_counterexample:
  "isTerminal (o_status order1) \<and>
   putOrderStatus [(''u1'', [order1])] ''o1'' PENDING None
     = (Inr (), [(''u1'', [order1\<lparr>o_status := PENDING\<rparr>])]) \<and>
   putOrderStatusByOwner [(''u1'', [order1])] ''o1'' PENDING (Some ''u1'')
     = (Inr (), [(''u1'', [order1\<lparr>o_status := PENDING\<rparr>])]) \<and>
   o_status (order1\<lparr>o_status := PENDING\<rparr>) \<noteq> o_status order1"
  by (simp add: isTerminal_def putOrderStatus_def statusStep_def Let_def
        putOrderStatusByOwner_def getOrEmpty_def mapGet_def truthy_def order1_def)

text \<open>
  Claim C4. A status update whose courier id is missing or empty leaves the courier id of
  every order of every bucket as it was, position by position; in particular a courier
  id that is set is retained.
\<close>

theorem putOrderStatus_keeps_courierId:
  assumes "distinct (map fst orders)" and "\<not> truthy courierId"
  shows "map_option (map o_courierId)
           (mapGet (snd (putOrderStatus orders orderId status courierId)) key)
         = map_option (map o_courierId) (mapGet orders key)"
  by (simp add: putOrderStatus_eq [OF assms(1)] mapGet_map_buckets option.map_comp comp_def
        updatedBucket_courierIds [OF assms(2)])

theorem putOrderStatus_keeps_courierId_witness:
  "map_option (map o_courierId)
     (mapGet (snd (putOrderStatus [(''u1'', [order2, order1])] ''o1'' PICKED_UP (Some '''')))
        ''u1'')
   = Some [None, Some ''c1''] \<and>
   map_option (map o_status)
     (mapGet (snd (putOrderStatus [(''u1'', [order2, order1])] ''o1'' PICKED_UP (Some '''')))
        ''u1'')
   = Some [READY, PICKED_UP]"
proof -
  have d: "distinct (map fst [(''u1'', [order2, order1])])" by simp
  have c: "\<not> truthy (Some '''')" by (simp add: truthy_def)
  have st: "map_option (map o_status)
     (mapGet (snd (putOrderStatus [(''u1'', [order2, order1])] ''o1'' PICKED_UP (Some '''')))
        ''u1'') = Some [READY, PICKED_UP]"
    by (simp add: putOrderStatus_def statusStep_def Let_def mapGet_def truthy_def
          order1_def order2_def)
  from putOrderStatus_keeps_courierId [OF d c, of "''o1''" PICKED_UP "''u1''"] st
  show ?thesis by (simp add: mapGet_def order1_def order2_def)
qed

text \<open>
  Claim C9. A status update for \<open>orderId\<close> adds and removes no bucket and changes no
  bucket's length, and an order at any position of any bucket whose id is not
  \<open>orderId\<close> is afterwards the same record at the same position. This holds of
  every call; a call either succeeds or answers 404 with the whole store unchanged.
\<close>

theorem putOrderStatus_frame:
  assumes "distinct (map fst orders)"
    and "mapGet orders key = Some userOrders"
    and "i < length userOrders"
    and "o_id (userOrders ! i) \<noteq> orderId"
  shows "map fst (snd (putOrderStatus orders orderId status courierId)) = map fst orders \<and>
         map_option length (mapGet (snd (putOrderStatus orders orderId status courierId)) key)
           = Some (length userOrders) \<and>
         map_option (\<lambda>os. os ! i)
             (mapGet (snd (putOrderStatus orders orderId status courierId)) key)
           = Some (userOrders ! i) \<and>
         (fst (putOrderStatus orders orderId status courierId) = Inr () \<or>
          putOrderStatus orders orderId status courierId
            = (Inl (Status404 ''Order not found''), orders))"
proof -
  let ?R = "putOrderStatus orders orderId status courierId"
  have keys: "map fst (snd ?R) = map fst orders"
    by (simp add: putOrderStatus_eq [OF assms(1)] comp_def)
  have bucket: "mapGet (snd ?R) key = Some (updatedBucket orderId status courierId userOrders)"
    by (simp add: putOrderStatus_eq [OF assms(1)] mapGet_map_buckets assms(2))
  have fail: "?R = (Inl (Status404 ''Order not found''), orders)"
    if "\<not> (\<exists>e \<in> set orders. holdsOrder orderId e)"
  proof -
    from that have "map (\<lambda>e. (fst e, updatedBucket orderId status courierId (snd e))) orders
        = orders"
      by (intro map_idI) (auto simp: holdsOrder_def updatedBucket_noop)
    with that show ?thesis
      by (simp add: putOrderStatus_eq [OF assms(1)])
  qed
  have res: "fst ?R = Inr () \<or> ?R = (Inl (Status404 ''Order not found''), orders)"
  proof (cases "\<exists>e \<in> set orders. holdsOrder orderId e")
    case True
    then show ?thesis by (simp add: putOrderStatus_eq [OF assms(1)])
  next
    case False
    then show ?thesis by (simp add: fail)
  qed
  from keys bucket res show ?thesis
    by (simp add: updatedBucket_length updatedBucket_other [OF assms(4)])
qed

theorem putOrderStatus_frame_witness:
  "mapGet (snd (putOrderStatus [(''u1'', [order2, order1]), (''u2'', [order2])]
                  ''o1'' CANCELLED (Some ''c9''))) ''u1''
     = Some [order2, order1\<lparr>o_status := CANCELLED, o_courierId := Some ''c9''\<rparr>] \<and>
   map_option (\<lambda>os. os ! 0)
     (mapGet (snd (putOrderStatus [(''u1'', [order2, order1]), (''u2'', [order2])]
                  ''o1'' CANCELLED (Some ''c9''))) ''u1'') = Some order2 \<and>
   map_option (\<lambda>os. os ! 0)
     (mapGet (snd (putOrderStatus [(''u1'', [order2, order1]), (''u2'', [order2])]
                  ''o1'' CANCELLED (Some ''c9''))) ''u2'') = Some order2 \<and>
   putOrderStatus [(''u1'', [order2, order1]), (''u2'', [order2])] ''o7'' CANCELLED None
     = (Inl (Status404 ''Order not found''), [(''u1'', [order2, order1]), (''u2'', [order2])])"
proof -
  let ?s = "[(''u1'', [order2, order1]), (''u2'', [order2])]"
  have d: "distinct (map fst ?s)" by simp
  have g1: "mapGet ?s ''u1'' = Some [order2, order1]" and g2: "mapGet ?s ''u2'' = Some [order2]"
    by (simp_all add: mapGet_def)
  have i1: "0 < length [order2, order1]" and i2: "0 < length [order2]" by simp_all
  have n1: "o_id ([order2, order1] ! 0) \<noteq> ''o1''" and n2: "o_id ([order2] ! 0) \<noteq> ''o1''"
    by (simp_all add: order2_def)
  have ev: "mapGet (snd (putOrderStatus ?s ''o1'' CANCELLED (Some ''c9''))) ''u1''
     = Some [order2, order1\<lparr>o_status := CANCELLED, o_courierId := Some ''c9''\<rparr>]"
    by (simp add: putOrderStatus_def statusStep_def Let_def mapGet_def truthy_def
          order1_def order2_def)
  have nf: "putOrderStatus ?s ''o7'' CANCELLED None = (Inl (Status404 ''Order not found''), ?s)"
    by (simp add: putOrderStatus_def statusStep_def Let_def order1_def order2_def)
  from putOrderStatus_frame [OF d g1 i1 n1, of CANCELLED "Some ''c9''"]
    putOrderStatus_frame [OF d g2 i2 n2, of CANCELLED "Some ''c9''"] ev nf
  show ?thesis by simp
qed

subsection \<open>The order sweep\<close>

text \<open>
  Claim C5. After the order sweep at time \<open>now\<close>, the bucket of every owner holds, in
  their order, exactly the orders of the old bucket that are \<open>retained\<close>: those whose
  status is not terminal or whose age \<open>now - createdAt\<close> is at most 24 hours. An owner
  none of whose orders is retained has no bucket afterwards, and no bucket appears for
  an owner who had none.
\<close>

theorem sweepOrders_retains:
  assumes "distinct (map fst orders)"
  shows "mapGet (sweepOrders now orders) userId =
     (case mapGet orders userId of
        None \<Rightarrow> None
      | Some userOrders \<Rightarrow>
          if filter (retained now) userOrders = [] then None
          else Some (filter (retained now) userOrders))"
  by (simp add: sweepOrders_eq [OF assms] mapGet_sweptEntries [OF assms])

theorem sweepOrders_retains_witness:
  "mapGet (sweepOrders 86400001 [(''u1'', [order1]), (''u2'', [order2, order1])]) ''u1'' = None \<and>
   mapGet (sweepOrders 86400001 [(''u1'', [order1]), (''u2'', [order2, order1])]) ''u2''
     = Some [order2] \<and>
   mapGet (sweepOrders 86400000 [(''u1'', [order1]), (''u2'', [order2, order1])]) ''u1''
     = Some [order1]"
proof -
  let ?s = "[(''u1'', [order1]), (''u2'', [order2, order1])]"
  have d: "distinct (map fst ?s)" by simp
  from sweepOrders_retains [OF d, of 86400001 "''u1''"]
    sweepOrders_retains [OF d, of 86400001 "''u2''"]
    sweepOrders_retains [OF d, of 86400000 "''u1''"]
  show ?thesis
    by (simp add: mapGet_def retained_def isTerminal_def TWENTY_FOUR_HOURS_def
          order1_def order2_def)
qed

subsection \<open>Messages\<close>

lemma postMessage_Inr:
  assumes "postMessage messages orderId content senderId isFromUser chatType newId T
             = (Inr m, messages')"
  shows "m_timestamp m = T" and "Some (m_chatType m) = chatType"
    and "getOrEmpty messages' orderId = getOrEmpty messages orderId @ [m]"
  using assms
  by (auto simp: postMessage_def Let_def getOrEmpty_def mapGet_mapSet_same split: if_splits)














text \<open>
  Claim C3, on the code. With no message stored for \<open>o1\<close>, one message \<open>m\<close> is posted
  to \<open>o1\<close> on the restaurant chat. Listing \<open>o1\<close> with the filter \<^verbatim>\<open>COURIER_CHAT\<close>
  returns the empty sequence, as the claim says, but it also stores the empty sequence as
  the thread of \<open>o1\<close>: the list it stores back is the one already filtered by chat
  type. The listing with filter \<^verbatim>\<open>RESTAURANT_CHAT\<close> that follows returns the empty
  sequence, not \<open>[m]\<close>, however soon it comes.
\<close>

theorem other_channel_read_erases_thread:
  assumes "mapGet messages o1 = None"
    and "postMessage messages o1 content senderId isFromUser (Some RESTAURANT_CHAT) newId T
           = (Inr m, s1)"
    and "getMessages s1 o1 (Some ''COURIER_CHAT'') t1 = (l1, s2)"
    and "getMessages s2 o1 (Some ''RESTAURANT_CHAT'') t2 = (l2, s3)"
  shows "l1 = [] \<and> mapGet s2 o1 = Some [] \<and> l2 = [] \<and> l2 \<noteq> [m]"
proof -
  note p = postMessage_Inr [OF assms(2)]
  from assms(1) p have thread: "getOrEmpty s1 o1 = [m]" and ct: "m_chatType m = RESTAURANT_CHAT"
    by (auto simp: getOrEmpty_def)
  from assms(3) thread ct have l1: "l1 = []" and s2: "s2 = mapSet o1 [] s1"
    by (auto simp: getMessages_def Let_def truthy_def)
  from s2 have g: "getOrEmpty s2 o1 = []" "mapGet s2 o1 = Some []"
    by (simp_all add: getOrEmpty_def mapGet_mapSet_same)
  from assms(4) g have "l2 = []"
    by (auto simp: getMessages_def Let_def truthy_def)
  with l1 g show ?thesis by simp
qed

theorem other_channel_read_erases_thread_witness:
  "fst (getMessages
     (snd (getMessages
        (snd (postMessage [] ''o1'' (Some ''hi'') (Some ''u1'') True (Some RESTAURANT_CHAT) ''m1'' 0))
        ''o1'' (Some ''COURIER_CHAT'') 1))
     ''o1'' (Some ''RESTAURANT_CHAT'') 2) = [] \<and>
   fst (getMessages
        (snd (postMessage [] ''o1'' (Some ''hi'') (Some ''u1'') True (Some RESTAURANT_CHAT) ''m1'' 0))
        ''o1'' (Some ''COURIER_CHAT'') 1) = []"
proof -
  let ?m = "\<lparr>m_id = ''m1'', m_orderId = ''o1'', m_content = ''hi'', m_senderId = ''u1'',
         m_isFromUser = True, m_timestamp = 0, m_chatType = RESTAURANT_CHAT,
         m_delivered = False\<rparr>"
  have post: "postMessage [] ''o1'' (Some ''hi'') (Some ''u1'') True (Some RESTAURANT_CHAT) ''m1'' 0
      = (Inr ?m, [(''o1'', [?m])])"
    by (simp add: postMessage_def truthy_def getOrEmpty_def mapGet_def Let_def)
  have e: "mapGet ([] :: (string, Message list) jsmap) ''o1'' = None"
    by (simp add: mapGet_def)
  from other_channel_read_erases_thread [OF e post surjective_pairing surjective_pairing, of 1 2]
  show ?thesis by (simp add: post)
qed

text \<open>
  Without the listing on the other channel in between, the listing on the message's own
  channel within three hours returns the message and leaves the store as it is.
\<close>

lemma same_channel_read_returns_message:
  assumes "mapGet messages o1 = None"
    and "postMessage messages o1 content senderId isFromUser (Some RESTAURANT_CHAT) newId T
           = (Inr m, s1)"
    and "t - T \<le> THREE_HOURS"
  shows "getMessages s1 o1 (Some ''RESTAURANT_CHAT'') t = ([m], s1)"
proof -
  note p = postMessage_Inr [OF assms(2)]
  from assms(1) p have thread: "getOrEmpty s1 o1 = [m]" and ct: "m_chatType m = RESTAURANT_CHAT"
    by (auto simp: getOrEmpty_def)
  with assms(3) p(1) show ?thesis
    by (simp add: getMessages_def Let_def truthy_def)
qed

end
